theory Spec2Isabelle
  imports Main
begin

section \<open>Strings\<close>

text \<open>
  A JavaScript string is modelled as a \<^typ>\<open>string\<close>, one \<^typ>\<open>char\<close> per code unit, so the
  strings of the model are those whose code units are below 256. On these
  \<open>String.prototype.toLowerCase\<close> maps each uppercase letter to its lowercase letter and
  leaves every other code unit alone; the uppercase letters are \<open>A\<close> to \<open>Z\<close> (\<open>0x41\<close> to
  \<open>0x5A\<close>) and the capitals of the Latin-1 range, \<open>0xC0\<close> to \<open>0xDE\<close> without the
  multiplication sign \<open>0xD7\<close>, each \<open>0x20\<close> below its lowercase letter.
\<close>

definition isUpper :: "char \<Rightarrow> bool" where
  "isUpper c \<longleftrightarrow>
     (let n = (of_char c :: nat)
      in (0x41 \<le> n \<and> n \<le> 0x5A) \<or> (0xC0 \<le> n \<and> n \<le> 0xDE \<and> n \<noteq> 0xD7))"

definition toLowerCase_char :: "char \<Rightarrow> char" where
  "toLowerCase_char c = (if isUpper c then char_of ((of_char c :: nat) + 0x20) else c)"

definition toLowerCase :: "string \<Rightarrow> string" where
  "toLowerCase s = map toLowerCase_char s"

text \<open>\<open>s.lastIndexOf(c)\<close>: the index of the last occurrence of \<open>c\<close>, or \<open>-1\<close>.\<close>

fun lastIndexOf :: "char \<Rightarrow> string \<Rightarrow> int" where
  "lastIndexOf c [] = -1"
| "lastIndexOf c (x # xs) =
     (let r = lastIndexOf c xs
      in if 0 \<le> r then r + 1 else if x = c then 0 else -1)"

text \<open>\<open>s.substring(0, pos)\<close> for \<open>0 \<le> pos \<le> s.length\<close>, the only way the source calls it.\<close>

definition substring0 :: "string \<Rightarrow> int \<Rightarrow> string" where
  "substring0 s pos = take (nat pos) s"

text \<open>JavaScript truthiness of a value that is a string or \<open>null\<close>/\<open>undefined\<close>.\<close>

definition truthy :: "string option \<Rightarrow> bool" where
  "truthy t \<longleftrightarrow> (case t of None \<Rightarrow> False | Some s \<Rightarrow> s \<noteq> [])"

section \<open>Objects used as dictionaries\<close>

text \<open>
  \<open>this.vocabularies\<close> and \<open>result.vocabularies\<close> are plain objects used as dictionaries
  with string keys. They are modelled as association lists in property order, which for
  keys that are not array indices is insertion order. Every key the source writes holds
  a \<open>/\<close>, so none is an array index.
\<close>

type_synonym 'v obj = "(string \<times> 'v) list"

text \<open>\<open>o[k] = v\<close>: replaces the value of an existing property in place, or appends.\<close>

fun obj_set :: "string \<Rightarrow> 'v \<Rightarrow> 'v obj \<Rightarrow> 'v obj" where
  "obj_set k v [] = [(k, v)]"
| "obj_set k v ((k', v') # ps) =
     (if k' = k then (k, v) # ps else (k', v') # obj_set k v ps)"

text \<open>\<open>delete o[k]\<close>.\<close>

definition obj_delete :: "string \<Rightarrow> 'v obj \<Rightarrow> 'v obj" where
  "obj_delete k ps = filter (\<lambda>p. fst p \<noteq> k) ps"

text \<open>\<open>Object.values(o)\<close>.\<close>

definition obj_values :: "'v obj \<Rightarrow> 'v list" where
  "obj_values ps = map snd ps"

text \<open>\<open>o[k]\<close>, with \<open>None\<close> for \<open>undefined\<close>.\<close>

definition obj_get :: "'v obj \<Rightarrow> string \<Rightarrow> 'v option" where
  "obj_get ps k = map_of ps k"

section \<open>The Vocabulary collaborator\<close>

text \<open>
  Modelled from the spec: the class \<open>Vocabulary\<close> of \<open>./vocabulary\<close>, which the manager
  requires, is not part of the sources at hand. The spec gives a vocabulary entry a
  namespace, a locale, an identifier derived as \<open>namespace/locale\<close>, and a mapping from a
  declaration name with an optional property name to a display string.
\<close>

record Vocabulary =
  voc_namespace :: string
  voc_locale :: string
  voc_terms :: "((string \<times> string option) \<times> string) list"

definition getNamespace :: "Vocabulary \<Rightarrow> string" where
  "getNamespace v = voc_namespace v"

definition getLocale :: "Vocabulary \<Rightarrow> string" where
  "getLocale v = voc_locale v"

text \<open>
  Modelled from the spec: \<open>getIdentifier()\<close> of the absent class; the spec derives the
  identifier from namespace and locale as \<open>namespace/locale\<close>.
\<close>

definition getIdentifier :: "Vocabulary \<Rightarrow> string" where
  "getIdentifier v = getNamespace v @ ''/'' @ getLocale v"

text \<open>
  Modelled from the spec: \<open>Vocabulary.getTerm(declarationName, propertyName?)\<close> of the
  absent class, a string or \<open>null\<close>.
\<close>

definition voc_getTerm :: "Vocabulary \<Rightarrow> string \<Rightarrow> string option \<Rightarrow> string option" where
  "voc_getTerm v declarationName propertyName =
     map_of (voc_terms v) (declarationName, propertyName)"

text \<open>
  The result of \<open>Vocabulary.validate(modelFile)\<close>: both fields are optional.
\<close>

record voc_errors =
  err_missingTerms :: "string list option"
  err_additionalTerms :: "string list option"

section \<open>The vocabulary manager\<close>

record VocabularyManager =
  vocabularies :: "Vocabulary obj"

text \<open>
  The source throws \<open>Error\<close> objects told apart by their message; the spec calls the first
  \<open>InvalidArgument\<close> and the second \<open>DuplicateEntry\<close>. A failure of \<open>YAML.parse\<close> or of the
  \<open>Vocabulary\<close> constructor passes through \<open>addVocabulary\<close> unchanged.
\<close>

datatype error = Error string

definition InvalidArgument :: error where
  "InvalidArgument = Error ''Vocabulary contents must be specified''"

definition DuplicateEntry :: error where
  "DuplicateEntry = Error ''Vocabulary has already been added.''"

text \<open>The constructor.\<close>

definition new_VocabularyManager :: VocabularyManager where
  "new_VocabularyManager = \<lparr>vocabularies = []\<rparr>"

definition clear :: "VocabularyManager \<Rightarrow> VocabularyManager" where
  "clear this = this\<lparr>vocabularies := []\<rparr>"

definition removeVocabulary :: "VocabularyManager \<Rightarrow> string \<Rightarrow> string \<Rightarrow> VocabularyManager" where
  "removeVocabulary this namespace loc =
     this\<lparr>vocabularies := obj_delete (namespace @ ''/'' @ loc) (vocabularies this)\<rparr>"

text \<open>
  \<open>addVocabulary(contents)\<close>. The argument is \<open>None\<close> when absent; \<open>!contents\<close> holds of
  an absent argument and of the empty string. The parameter \<open>parse\<close> stands for
  \<open>new Vocabulary(this, YAML.parse(contents))\<close>, which either throws or gives an entry.
  The result pairs the outcome with the manager as the call leaves it: nothing is
  assigned before either \<open>throw\<close>.
\<close>

definition addVocabulary ::
  "(string \<Rightarrow> error + Vocabulary) \<Rightarrow> VocabularyManager \<Rightarrow> string option
     \<Rightarrow> (error + unit) \<times> VocabularyManager" where
  "addVocabulary parse this contents =
     (case contents of
        None \<Rightarrow> (Inl InvalidArgument, this)
      | Some text \<Rightarrow>
          if text = [] then (Inl InvalidArgument, this)
          else
            (case parse text of
               Inl e \<Rightarrow> (Inl e, this)
             | Inr voc \<Rightarrow>
                 (case find (\<lambda>v. getIdentifier v = getIdentifier voc)
                         (obj_values (vocabularies this)) of
                    Some existing \<Rightarrow> (Inl DuplicateEntry, this)
                  | None \<Rightarrow>
                      (Inr (),
                       this\<lparr>vocabularies :=
                         obj_set (getIdentifier voc) voc (vocabularies this)\<rparr>))))"

text \<open>
  The \<open>options\<close> argument: absent (\<open>None\<close>) or an object whose \<open>localeMatcher\<close> is a string
  or missing. A \<open>localeMatcher\<close> that is not a string behaves as a missing one, since it
  is only compared with \<open>'lookup'\<close>.
\<close>

record options =
  localeMatcher :: "string option"

definition is_lookup :: "options option \<Rightarrow> bool" where
  "is_lookup opts \<longleftrightarrow>
     (case opts of None \<Rightarrow> False | Some opt \<Rightarrow> localeMatcher opt = Some ''lookup'')"

lemma lastIndexOf_bounds: "lastIndexOf c s < int (length s)" "- 1 \<le> lastIndexOf c s"
  by (induction s) (auto simp: Let_def)

text \<open>The \<open>do \<dots> while\<close> loop of \<open>findVocabulary\<close>, one iteration per call.\<close>

function findVocabulary :: "string \<Rightarrow> Vocabulary list \<Rightarrow> options option \<Rightarrow> Vocabulary option" where
  "findVocabulary loc vocs opts =
     (case find (\<lambda>v. getLocale v = loc) vocs of
        Some voc \<Rightarrow> Some voc
      | None \<Rightarrow>
          if \<not> is_lookup opts then None
          else if lastIndexOf CHR ''-'' loc = - 1 then None
          else findVocabulary (substring0 loc (lastIndexOf CHR ''-'' loc)) vocs opts)"
  by pat_completeness auto
termination
proof (relation "measure (\<lambda>(loc, vocs, opts). length loc)")
  show "wf (measure (\<lambda>(loc, vocs, opts). length loc))" by simp
next
  fix loc :: string and vocs :: "Vocabulary list" and opts :: "options option"
  assume "lastIndexOf CHR ''-'' loc \<noteq> - 1"
  then have "nat (lastIndexOf CHR ''-'' loc) < length loc"
    using lastIndexOf_bounds [of "CHR ''-''" loc] by linarith
  then show "((substring0 loc (lastIndexOf CHR ''-'' loc), vocs, opts), (loc, vocs, opts))
      \<in> measure (\<lambda>(loc, vocs, opts). length loc)"
    by (simp add: substring0_def)
qed

declare findVocabulary.simps [simp del]

definition getVocabulariesForNamespace :: "VocabularyManager \<Rightarrow> string \<Rightarrow> Vocabulary list" where
  "getVocabulariesForNamespace this namespace =
     filter (\<lambda>v. getNamespace v = namespace) (obj_values (vocabularies this))"

definition getVocabulariesForLocale :: "VocabularyManager \<Rightarrow> string \<Rightarrow> Vocabulary list" where
  "getVocabulariesForLocale this loc =
     filter (\<lambda>v. getLocale v = toLowerCase loc) (obj_values (vocabularies this))"

definition getVocabulary ::
  "VocabularyManager \<Rightarrow> string \<Rightarrow> string \<Rightarrow> options option \<Rightarrow> Vocabulary option" where
  "getVocabulary this namespace loc opts =
     findVocabulary (toLowerCase loc) (getVocabulariesForNamespace this namespace) opts"

text \<open>
  \<open>getTerm\<close> of the manager. \<open>getVocabulary\<close> is called with no options, and the recursion
  is on the locale cut at its last \<open>-\<close>.
\<close>

function getTerm ::
  "VocabularyManager \<Rightarrow> string \<Rightarrow> string \<Rightarrow> string \<Rightarrow> string option \<Rightarrow> string option" where
  "getTerm this namespace loc declarationName propertyName =
     (let term = (case getVocabulary this namespace loc None of
                    None \<Rightarrow> None
                  | Some voc \<Rightarrow> voc_getTerm voc declarationName propertyName)
      in if truthy term then term
         else if 0 \<le> lastIndexOf CHR ''-'' loc
           then getTerm this namespace (substring0 loc (lastIndexOf CHR ''-'' loc))
                  declarationName propertyName
           else None)"
  by pat_completeness auto
termination
proof (relation "measure (\<lambda>(this, namespace, loc, d, p). length loc)")
  show "wf (measure (\<lambda>(this, namespace, loc, d, p). length loc))" by simp
next
  fix this :: VocabularyManager and namespace loc d :: string and p t :: "string option"
  assume "0 \<le> lastIndexOf CHR ''-'' loc"
  then have "nat (lastIndexOf CHR ''-'' loc) < length loc"
    using lastIndexOf_bounds [of "CHR ''-''" loc] by linarith
  then show "((this, namespace, substring0 loc (lastIndexOf CHR ''-'' loc), d, p),
              (this, namespace, loc, d, p))
      \<in> measure (\<lambda>(this, namespace, loc, d, p). length loc)"
    by (simp add: substring0_def)
qed

declare getTerm.simps [simp del]

text \<open>
  The same method run with a bound on the depth of the recursion: \<open>None\<close> when the
  bound is used up before the method returns, \<open>Some\<close> of the returned value otherwise.
\<close>

fun getTerm_depth ::
  "nat \<Rightarrow> VocabularyManager \<Rightarrow> string \<Rightarrow> string \<Rightarrow> string \<Rightarrow> string option
     \<Rightarrow> string option option" where
  "getTerm_depth 0 this namespace loc declarationName propertyName = None"
| "getTerm_depth (Suc n) this namespace loc declarationName propertyName =
     (let term = (case getVocabulary this namespace loc None of
                    None \<Rightarrow> None
                  | Some voc \<Rightarrow> voc_getTerm voc declarationName propertyName)
      in if truthy term then Some term
         else if 0 \<le> lastIndexOf CHR ''-'' loc
           then getTerm_depth n this namespace (substring0 loc (lastIndexOf CHR ''-'' loc))
                  declarationName propertyName
           else Some None)"

text \<open>The number of \<open>-\<close> separators of a tag, and the number of its subtags.\<close>

definition dashes :: "string \<Rightarrow> nat" where
  "dashes loc = count_list loc CHR ''-''"

definition subtags :: "string \<Rightarrow> nat" where
  "subtags loc = Suc (dashes loc)"

subsection \<open>Validation\<close>

text \<open>
  The model manager belongs to another package. It is a parameter: the list
  \<open>getModelFiles()\<close> and the lookup \<open>getModelFile(namespace)\<close>, over model files of an
  opaque type \<open>'m\<close>.
\<close>

record 'm ModelManager =
  getModelFiles :: "'m list"
  getModelFile :: "string \<Rightarrow> 'm option"

record vocResult =
  res_locale :: string
  res_namespace :: string
  res_missingTerms :: "string list"
  res_additionalTerms :: "string list"

record validation_result =
  missingVocabularies :: "string list"
  additionalVocabularies :: "Vocabulary list"
  result_vocabularies :: "vocResult obj"

text \<open>
  The body of the \<open>forEach\<close> of \<open>validate\<close>, on the \<open>result.vocabularies\<close> built so far.
  \<open>voc_validate\<close> stands for \<open>Vocabulary.validate(model)\<close> of the absent class.
\<close>

definition validate_voc ::
  "(Vocabulary \<Rightarrow> 'm \<Rightarrow> voc_errors) \<Rightarrow> 'm ModelManager \<Rightarrow> Vocabulary
     \<Rightarrow> vocResult obj \<Rightarrow> vocResult obj" where
  "validate_voc voc_validate modelManager voc acc =
     (let vocResult = \<lparr>res_locale = getLocale voc, res_namespace = getNamespace voc,
                        res_missingTerms = [], res_additionalTerms = []\<rparr>
      in case getModelFile modelManager (getNamespace voc) of
           None \<Rightarrow> acc
         | Some model \<Rightarrow>
             (let errors = voc_validate voc model;
                  vocResult1 = (case err_missingTerms errors of
                      Some ts \<Rightarrow> vocResult\<lparr>res_missingTerms := res_missingTerms vocResult @ ts\<rparr>
                    | None \<Rightarrow> vocResult);
                  vocResult2 = (case err_additionalTerms errors of
                      Some ts \<Rightarrow>
                        vocResult1\<lparr>res_additionalTerms := res_additionalTerms vocResult1 @ ts\<rparr>
                    | None \<Rightarrow> vocResult1)
              in obj_set (res_namespace vocResult2 @ ''/'' @ res_locale vocResult2)
                   vocResult2 acc))"

text \<open>\<open>validate(modelManager)\<close>; \<open>model_namespace\<close> stands for \<open>getNamespace()\<close> of a model file.\<close>

definition validate ::
  "('m \<Rightarrow> string) \<Rightarrow> (Vocabulary \<Rightarrow> 'm \<Rightarrow> voc_errors) \<Rightarrow> VocabularyManager
     \<Rightarrow> 'm ModelManager \<Rightarrow> validation_result" where
  "validate model_namespace voc_validate this modelManager =
     \<lparr>missingVocabularies =
        map the (filter (\<lambda>m. m \<noteq> None)
          (map (\<lambda>m. if length (getVocabulariesForNamespace this (model_namespace m)) = 0
                    then Some (model_namespace m) else None)
             (getModelFiles modelManager))),
      additionalVocabularies =
        filter (\<lambda>v. getModelFile modelManager (getNamespace v) = None)
          (obj_values (vocabularies this)),
      result_vocabularies =
        fold (validate_voc voc_validate modelManager) (obj_values (vocabularies this)) []\<rparr>"

subsection \<open>The invariant of the store\<close>

text \<open>At most one entry per identifier.\<close>

definition store_inv :: "VocabularyManager \<Rightarrow> bool" where
  "store_inv this \<longleftrightarrow> distinct (map getIdentifier (obj_values (vocabularies this)))"

text \<open>Every entry is stored under its own identifier.\<close>

definition store_keyed :: "VocabularyManager \<Rightarrow> bool" where
  "store_keyed this \<longleftrightarrow> list_all (\<lambda>p. fst p = getIdentifier (snd p)) (vocabularies this)"

text \<open>The states of a store: what the constructor and the three mutating methods give.\<close>

inductive reachable :: "VocabularyManager \<Rightarrow> bool" where
  reachable_new: "reachable new_VocabularyManager"
| reachable_clear: "reachable this \<Longrightarrow> reachable (clear this)"
| reachable_remove: "reachable this \<Longrightarrow> reachable (removeVocabulary this namespace loc)"
| reachable_add: "reachable this \<Longrightarrow> reachable (snd (addVocabulary parse this contents))"

text \<open>
  The record \<open>validate\<close> builds for an entry whose namespace has the model file \<open>model\<close>, in
  the words of the spec: locale, namespace, and the missing and additional terms the
  entry's own validation reports.
\<close>

definition entry_record :: "(Vocabulary \<Rightarrow> 'm \<Rightarrow> voc_errors) \<Rightarrow> 'm ModelManager \<Rightarrow> Vocabulary \<Rightarrow> vocResult" where
  "entry_record voc_validate modelManager v =
     \<lparr>res_locale = getLocale v, res_namespace = getNamespace v,
      res_missingTerms =
        (case getModelFile modelManager (getNamespace v) of
           None \<Rightarrow> []
         | Some model \<Rightarrow>
             (case err_missingTerms (voc_validate v model) of None \<Rightarrow> [] | Some ts \<Rightarrow> ts)),
      res_additionalTerms =
        (case getModelFile modelManager (getNamespace v) of
           None \<Rightarrow> []
         | Some model \<Rightarrow>
             (case err_additionalTerms (voc_validate v model) of None \<Rightarrow> [] | Some ts \<Rightarrow> ts))\<rparr>"

text \<open>
  The source documents every \<open>locale\<close> parameter as a BCP-47 locale identifier. Such a tag
  is made of subtags of ASCII letters and digits joined by \<open>-\<close>; \<open>bcp47_chars\<close> holds of
  every string over that alphabet, so of every tag.
\<close>

definition bcp47_chars :: "string \<Rightarrow> bool" where
  "bcp47_chars loc \<longleftrightarrow>
     list_all
       (\<lambda>c. c \<in> set ''ABCDEFGHIJKLMNOPQRSTUVWXYZabcdefghijklmnopqrstuvwxyz0123456789-'')
       loc"

text \<open>Every entry of the store has a locale in lowercase.\<close>

definition store_lowercase :: "VocabularyManager \<Rightarrow> bool" where
  "store_lowercase this \<longleftrightarrow>
     list_all (\<lambda>p. getLocale (snd p) = toLowerCase (getLocale (snd p))) (vocabularies this)"

text \<open>
  In the words of the spec: the entry registered for a namespace at exactly a locale, the
  locale compared in lowercase and with no generalisation.
\<close>

definition exact_entry :: "VocabularyManager \<Rightarrow> string \<Rightarrow> string \<Rightarrow> Vocabulary option" where
  "exact_entry this namespace loc =
     find (\<lambda>v. getLocale v = toLowerCase loc) (getVocabulariesForNamespace this namespace)"

section \<open>Example data\<close>

definition v_en :: Vocabulary where
  "v_en = \<lparr>voc_namespace = ''org.acme'', voc_locale = ''en'', voc_terms = [((''Vehicle'', None), ''Vehicle'')]\<rparr>"

definition v_fr :: Vocabulary where
  "v_fr = \<lparr>voc_namespace = ''org.acme'', voc_locale = ''fr'', voc_terms = [((''Vehicle'', None), ''Vehicule'')]\<rparr>"

definition v_en_us :: Vocabulary where
  "v_en_us = \<lparr>voc_namespace = ''org.acme'', voc_locale = ''en-us'', voc_terms = [((''Vehicle'', Some ''vin''), ''VIN'')]\<rparr>"

definition store_en :: VocabularyManager where
  "store_en = \<lparr>vocabularies = [(''org.acme/en'', v_en)]\<rparr>"

definition store_en_fr :: VocabularyManager where
  "store_en_fr = \<lparr>vocabularies = [(''org.acme/en'', v_en), (''org.acme/fr'', v_fr)]\<rparr>"

definition store_en_us :: VocabularyManager where
  "store_en_us = \<lparr>vocabularies = [(''org.acme/en-us'', v_en_us)]\<rparr>"

definition doc_en :: string where
  "doc_en = ''{locale: en, namespace: org.acme, declarations: [{Vehicle: Vehicle}]}''"

definition doc_fr :: string where
  "doc_fr = ''{locale: fr, namespace: org.acme, declarations: [{Vehicle: Vehicule}]}''"

definition doc_en_us :: string where
  "doc_en_us = ''{locale: en-us, namespace: org.acme, declarations: [{Vehicle: Vehicle, properties: [{vin: VIN}]}]}''"

definition parse_example :: "string \<Rightarrow> error + Vocabulary" where
  "parse_example text =
     (if text = doc_en then Inr v_en
      else if text = doc_fr then Inr v_fr
      else if text = doc_en_us then Inr v_en_us
      else Inl (Error ''not a vocabulary document''))"

definition v_other :: Vocabulary where
  "v_other = \<lparr>voc_namespace = ''com.other'', voc_locale = ''en'', voc_terms = []\<rparr>"

definition store_three :: VocabularyManager where
  "store_three = \<lparr>vocabularies =
     [(''org.acme/en'', v_en), (''com.other/en'', v_other), (''org.acme/fr'', v_fr)]\<rparr>"

text \<open>A model manager whose model files are their namespaces.\<close>

definition models_example :: "string ModelManager" where
  "models_example =
     \<lparr>getModelFiles = [''org.acme'', ''org.missing''],
      getModelFile = (\<lambda>ns. if ns = ''org.acme'' \<or> ns = ''org.missing'' then Some ns else None)\<rparr>"

definition voc_validate_example :: "Vocabulary \<Rightarrow> string \<Rightarrow> voc_errors" where
  "voc_validate_example v model =
     (if getLocale v = ''en''
      then \<lparr>err_missingTerms = Some [''Truck''], err_additionalTerms = None\<rparr>
      else \<lparr>err_missingTerms = None, err_additionalTerms = Some [''Vehicle.colour'']\<rparr>)"

section \<open>Locale matching\<close>

subsection \<open>Facts about strings\<close>

lemma eq_char_of_iff: "c = char_of (n :: nat) \<longleftrightarrow> take_bit 8 n = of_char c"
  using char_of_eq_iff [of n c] by auto

lemmas toLowerCase_eval =
  toLowerCase_def toLowerCase_char_def isUpper_def char_of_eq_iff eq_char_of_iff

lemma of_char_toLowerCase_char:
  "of_char (toLowerCase_char c) = (if isUpper c then (of_char c :: nat) + 0x20 else of_char c)"
  by (auto simp: toLowerCase_char_def isUpper_def Let_def take_bit_eq_mod)

lemma toLowerCase_char_fix: "toLowerCase_char c = c \<longleftrightarrow> \<not> isUpper c"
proof
  assume "toLowerCase_char c = c"
  then have "(of_char (toLowerCase_char c) :: nat) = of_char c" by simp
  then show "\<not> isUpper c" by (simp add: of_char_toLowerCase_char split: if_splits)
next
  assume "\<not> isUpper c"
  then show "toLowerCase_char c = c" by (simp add: toLowerCase_char_def)
qed

lemma toLowerCase_char_lower: "\<not> isUpper (toLowerCase_char c)"
proof (cases "isUpper c")
  case True
  then have "(of_char (toLowerCase_char c) :: nat) = of_char c + 0x20"
    by (simp add: of_char_toLowerCase_char)
  with True show ?thesis unfolding isUpper_def Let_def by presburger
next
  case False
  then show ?thesis by (simp add: toLowerCase_char_def)
qed

lemma toLowerCase_fix: "toLowerCase s = s \<longleftrightarrow> (\<forall>c\<in>set s. \<not> isUpper c)"
  by (induction s) (auto simp: toLowerCase_def toLowerCase_char_fix)

lemma lastIndexOf_absent: "lastIndexOf c s = - 1 \<longleftrightarrow> c \<notin> set s"
proof (induction s)
  case Nil
  show ?case by simp
next
  case (Cons x xs)
  have "- 1 \<le> lastIndexOf c xs" by (rule lastIndexOf_bounds)
  with Cons show ?case by (auto simp: Let_def)
qed

lemma lastIndexOf_present: "0 \<le> lastIndexOf c s \<longleftrightarrow> c \<in> set s"
  using lastIndexOf_absent [of c s] lastIndexOf_bounds(2) [of c s] by linarith

lemma lastIndexOf_split: "c \<notin> set suf \<Longrightarrow> lastIndexOf c (pre @ c # suf) = int (length pre)"
proof (induction pre)
  case Nil
  then have "lastIndexOf c suf = - 1" by (simp add: lastIndexOf_absent)
  then show ?case by simp
next
  case (Cons x pre)
  then show ?case by (simp add: Let_def)
qed

lemma substring0_split: "substring0 (pre @ c # suf) (int (length pre)) = pre"
  by (simp add: substring0_def)

subsection \<open>findVocabulary\<close>

lemma findVocabulary_hit:
  "find (\<lambda>v. getLocale v = loc) vocs = Some voc \<Longrightarrow> findVocabulary loc vocs opts = Some voc"
  by (subst findVocabulary.simps) simp

lemma findVocabulary_exact:
  "\<not> is_lookup opts \<Longrightarrow> findVocabulary loc vocs opts = find (\<lambda>v. getLocale v = loc) vocs"
  by (subst findVocabulary.simps) (simp split: option.splits)

lemma findVocabulary_truncate:
  assumes "is_lookup opts" "find (\<lambda>v. getLocale v = pre @ ''-'' @ suf) vocs = None"
    "CHR ''-'' \<notin> set suf"
  shows "findVocabulary (pre @ ''-'' @ suf) vocs opts = findVocabulary pre vocs opts"
  using assms
  by (subst findVocabulary.simps) (simp add: lastIndexOf_split substring0_split)

lemma findVocabulary_exhausted:
  assumes "is_lookup opts" "find (\<lambda>v. getLocale v = loc) vocs = None" "CHR ''-'' \<notin> set loc"
  shows "findVocabulary loc vocs opts = None"
  using assms
  by (subst findVocabulary.simps) (simp add: lastIndexOf_absent)

text \<open>
  Claim C1. \<open>findVocabulary\<close> returns the first candidate whose locale equals the current
  tag. When \<open>options.localeMatcher\<close> is not \<open>'lookup'\<close> it makes one exact-match attempt and
  returns null on a miss. Under \<open>'lookup'\<close> a miss on a tag that splits at its last \<open>-\<close> into
  \<open>pre\<close> and \<open>suf\<close> continues with \<open>pre\<close>, and a miss on a tag with no \<open>-\<close> returns null.
\<close>

theorem findVocabulary_fallback:
  "(\<not> is_lookup opts \<longrightarrow> findVocabulary loc vocs opts = find (\<lambda>v. getLocale v = loc) vocs)
   \<and> (find (\<lambda>v. getLocale v = loc) vocs = Some voc \<longrightarrow> findVocabulary loc vocs opts = Some voc)
   \<and> (is_lookup opts \<and> find (\<lambda>v. getLocale v = loc) vocs = None
        \<and> loc = pre @ ''-'' @ suf \<and> CHR ''-'' \<notin> set suf \<longrightarrow>
          findVocabulary loc vocs opts = findVocabulary pre vocs opts)
   \<and> (is_lookup opts \<and> find (\<lambda>v. getLocale v = loc) vocs = None \<and> CHR ''-'' \<notin> set loc \<longrightarrow>
          findVocabulary loc vocs opts = None)"
  using findVocabulary_exact [of opts loc vocs] findVocabulary_hit [of loc vocs voc opts]
    findVocabulary_truncate [of opts pre suf vocs] findVocabulary_exhausted [of opts loc vocs]
  by blast

text \<open>
  The examples of the claim: \<open>en-US-x\<close> against a candidate \<open>en\<close> under lookup goes through
  \<open>en-US\<close> to \<open>en\<close>; \<open>en-US\<close> against a candidate \<open>fr\<close> with empty options is null.
\<close>

theorem findVocabulary_fallback_witness:
  "findVocabulary ''en-US-x'' [v_en] (Some \<lparr>localeMatcher = Some ''lookup''\<rparr>) = Some v_en
   \<and> findVocabulary ''en-US'' [v_fr] (Some \<lparr>localeMatcher = None\<rparr>) = None
   \<and> findVocabulary ''zh'' [v_fr] (Some \<lparr>localeMatcher = Some ''lookup''\<rparr>) = None"
proof -
  let ?lk = "Some \<lparr>localeMatcher = Some ''lookup''\<rparr>"
  have lk: "is_lookup ?lk" and nlk: "\<not> is_lookup (Some \<lparr>localeMatcher = None\<rparr>)"
    by (simp_all add: is_lookup_def)
  have "findVocabulary ''en-US-x'' [v_en] ?lk = findVocabulary ''en-US'' [v_en] ?lk"
    using findVocabulary_fallback [of ?lk "''en-US-x''" "[v_en]" v_en "''en-US''" "''x''"] lk
    by (simp add: v_en_def getLocale_def)
  also have "\<dots> = findVocabulary ''en'' [v_en] ?lk"
    using findVocabulary_fallback [of ?lk "''en-US''" "[v_en]" v_en "''en''" "''US''"] lk
    by (simp add: v_en_def getLocale_def)
  also have "\<dots> = Some v_en"
    using findVocabulary_fallback [of ?lk "''en''" "[v_en]" v_en "''''" "''''"]
    by (simp add: v_en_def getLocale_def)
  finally have a: "findVocabulary ''en-US-x'' [v_en] ?lk = Some v_en" .
  have b: "findVocabulary ''en-US'' [v_fr] (Some \<lparr>localeMatcher = None\<rparr>) = None"
    using findVocabulary_fallback [of "Some \<lparr>localeMatcher = None\<rparr>" "''en-US''" "[v_fr]" v_fr "''''" "''''"] nlk
    by (simp add: v_fr_def getLocale_def)
  have c: "findVocabulary ''zh'' [v_fr] ?lk = None"
    using findVocabulary_fallback [of ?lk "''zh''" "[v_fr]" v_fr "''''" "''''"] lk
    by (simp add: v_fr_def getLocale_def)
  from a b c show ?thesis by simp
qed

section \<open>Clearing the store\<close>

text \<open>
  Claim C8. \<open>clear()\<close> resets the store to empty and is idempotent: after it,
  \<open>getVocabulariesForNamespace\<close> and \<open>getVocabulariesForLocale\<close> return empty sequences for
  every namespace and every locale, and clearing twice leaves the same state as clearing
  once.
\<close>

theorem clear_empties_store:
  "vocabularies (clear this) = []
   \<and> getVocabulariesForNamespace (clear this) namespace = []
   \<and> getVocabulariesForLocale (clear this) loc = []
   \<and> clear (clear this) = clear this"
  by (simp add: clear_def getVocabulariesForNamespace_def getVocabulariesForLocale_def
      obj_values_def)

section \<open>Removing an entry\<close>

lemma obj_delete_idem: "obj_delete k (obj_delete k ps) = obj_delete k ps"
  by (simp add: obj_delete_def)

lemma obj_get_delete: "obj_get (obj_delete k ps) k' = (if k' = k then None else obj_get ps k')"
  by (induction ps) (auto simp: obj_delete_def obj_get_def)

lemma obj_delete_absent: "obj_get ps k = None \<Longrightarrow> obj_delete k ps = ps"
  unfolding obj_get_def obj_delete_def
  by (induction ps) (auto split: if_splits)

text \<open>
  Claim C9. \<open>removeVocabulary(namespace, locale)\<close> removes the entry keyed
  \<open>namespace/locale\<close> and leaves every other key as it was; removing twice gives the state
  of removing once, and removing a key that is not there changes nothing. The method has
  no failing branch.
\<close>

theorem removeVocabulary_idempotent:
  "removeVocabulary (removeVocabulary this namespace loc) namespace loc
     = removeVocabulary this namespace loc
   \<and> obj_get (vocabularies (removeVocabulary this namespace loc)) (namespace @ ''/'' @ loc) = None
   \<and> (k \<noteq> namespace @ ''/'' @ loc \<longrightarrow>
        obj_get (vocabularies (removeVocabulary this namespace loc)) k
          = obj_get (vocabularies this) k)
   \<and> (obj_get (vocabularies this) (namespace @ ''/'' @ loc) = None \<longrightarrow>
        removeVocabulary this namespace loc = this)"
  by (simp add: removeVocabulary_def obj_delete_idem obj_get_delete obj_delete_absent)

theorem removeVocabulary_idempotent_witness:
  "removeVocabulary store_en ''org.acme'' ''fr'' = store_en
   \<and> obj_get (vocabularies (removeVocabulary store_en_fr ''org.acme'' ''fr'')) ''org.acme/en''
       = Some v_en
   \<and> removeVocabulary store_en_fr ''org.acme'' ''fr'' = store_en"
proof -
  have absent: "obj_get (vocabularies store_en) (''org.acme'' @ ''/'' @ ''fr'') = None"
    by (simp add: store_en_def obj_get_def)
  have other: "''org.acme/en'' \<noteq> ''org.acme'' @ ''/'' @ ''fr''" by simp
  have a: "removeVocabulary store_en ''org.acme'' ''fr'' = store_en"
    using removeVocabulary_idempotent [of store_en "''org.acme''" "''fr''"] absent by blast
  have "obj_get (vocabularies (removeVocabulary store_en_fr ''org.acme'' ''fr'')) ''org.acme/en''
      = obj_get (vocabularies store_en_fr) ''org.acme/en''"
    using removeVocabulary_idempotent [of store_en_fr "''org.acme''" "''fr''" "''org.acme/en''"] other
    by blast
  then have b: "obj_get (vocabularies (removeVocabulary store_en_fr ''org.acme'' ''fr'')) ''org.acme/en''
      = Some v_en"
    by (simp add: store_en_fr_def obj_get_def)
  have c: "removeVocabulary store_en_fr ''org.acme'' ''fr'' = store_en"
    by (simp add: removeVocabulary_def store_en_fr_def store_en_def obj_delete_def)
  from a b c show ?thesis by simp
qed

section \<open>Removal and the case of the locale\<close>

lemma toLowerCase_char_idem: "toLowerCase_char (toLowerCase_char c) = toLowerCase_char c"
  using toLowerCase_char_lower [of c] by (simp add: toLowerCase_char_fix)

lemma toLowerCase_idem: "toLowerCase (toLowerCase s) = toLowerCase s"
  by (simp add: toLowerCase_def toLowerCase_char_idem)

lemma slash_key_clash:
  assumes eq: "ns' @ ''/'' @ l' = ns @ ''/'' @ l"
    and low: "\<forall>c\<in>set l'. \<not> isUpper c"
    and up: "\<exists>c\<in>set l. isUpper c"
    and noslash: "CHR ''/'' \<notin> set l"
  shows False
proof -
  from eq consider us where "ns' = ns @ us" "us @ ''/'' @ l' = ''/'' @ l"
    | us where "ns' @ us = ns" "''/'' @ l' = us @ ''/'' @ l"
    by (auto simp: append_eq_append_conv2)
  then show False
  proof cases
    case 1
    show False
    proof (cases us)
      case Nil
      with 1 have "l' = l" by simp
      with low up show False by blast
    next
      case (Cons u us')
      with 1 have "l = us' @ ''/'' @ l'" by simp
      then have "CHR ''/'' \<in> set l" by simp
      with noslash show False by contradiction
    qed
  next
    case 2
    show False
    proof (cases us)
      case Nil
      with 2 have "l' = l" by simp
      with low up show False by blast
    next
      case (Cons u us')
      with 2 have "l' = us' @ ''/'' @ l" by simp
      then have "set l \<subseteq> set l'" by auto
      with low up show False by blast
    qed
  qed
qed

lemma removeVocabulary_upper_noop:
  assumes keyed: "store_keyed this" and lower: "store_lowercase this"
    and up: "\<exists>c\<in>set loc. isUpper c" and noslash: "CHR ''/'' \<notin> set loc"
  shows "removeVocabulary this namespace loc = this"
proof -
  have "fst p \<noteq> namespace @ ''/'' @ loc" if p: "p \<in> set (vocabularies this)" for p
  proof
    assume k: "fst p = namespace @ ''/'' @ loc"
    from keyed p have "fst p = getNamespace (snd p) @ ''/'' @ getLocale (snd p)"
      by (simp add: store_keyed_def list_all_iff getIdentifier_def)
    with k have eq: "getNamespace (snd p) @ ''/'' @ getLocale (snd p) = namespace @ ''/'' @ loc"
      by simp
    from lower p have "toLowerCase (getLocale (snd p)) = getLocale (snd p)"
      by (simp add: store_lowercase_def list_all_iff)
    then have low: "\<forall>c\<in>set (getLocale (snd p)). \<not> isUpper c"
      by (simp add: toLowerCase_fix)
    show False by (rule slash_key_clash [OF eq low up noslash])
  qed
  then have "obj_delete (namespace @ ''/'' @ loc) (vocabularies this) = vocabularies this"
    by (simp add: obj_delete_def filter_id_conv)
  then show ?thesis by (simp add: removeVocabulary_def)
qed

lemma bcp47_chars_no_slash:
  assumes "bcp47_chars loc"
  shows "CHR ''/'' \<notin> set loc"
proof
  assume slash: "CHR ''/'' \<in> set loc"
  from assms have
    "\<forall>c\<in>set loc.
       c \<in> set ''ABCDEFGHIJKLMNOPQRSTUVWXYZabcdefghijklmnopqrstuvwxyz0123456789-''"
    unfolding bcp47_chars_def list_all_iff .
  then have
    "CHR ''/'' \<in> set ''ABCDEFGHIJKLMNOPQRSTUVWXYZabcdefghijklmnopqrstuvwxyz0123456789-''"
    using slash by (rule bspec)
  then show False by simp
qed

text \<open>
  Claim C10. \<open>getVocabulary\<close> and \<open>getVocabulariesForLocale\<close> lowercase the locale they are
  given, and \<open>removeVocabulary\<close> builds its key from the locale as given. Hence, in a store
  whose entries are keyed by their identifiers and have lowercase locales, removing with
  a locale that holds an uppercase letter leaves the store as it was. The locale is a
  BCP-47 locale identifier, as the source documents the parameter.
\<close>

theorem removeVocabulary_keeps_entry_on_uppercase_locale:
  "getVocabulary this namespace loc opts = getVocabulary this namespace (toLowerCase loc) opts
   \<and> getVocabulariesForLocale this loc = getVocabulariesForLocale this (toLowerCase loc)
   \<and> (bcp47_chars loc \<and> store_keyed this \<and> store_lowercase this
        \<and> (\<exists>c\<in>set loc. isUpper c) \<longrightarrow>
          removeVocabulary this namespace loc = this)"
proof (intro conjI impI)
  show "getVocabulary this namespace loc opts
      = getVocabulary this namespace (toLowerCase loc) opts"
    by (simp add: getVocabulary_def toLowerCase_idem)
  show "getVocabulariesForLocale this loc = getVocabulariesForLocale this (toLowerCase loc)"
    by (simp add: getVocabulariesForLocale_def toLowerCase_idem)
next
  assume a: "bcp47_chars loc \<and> store_keyed this \<and> store_lowercase this
        \<and> (\<exists>c\<in>set loc. isUpper c)"
  then have "CHR ''/'' \<notin> set loc" by (simp add: bcp47_chars_no_slash)
  with a show "removeVocabulary this namespace loc = this"
    by (simp add: removeVocabulary_upper_noop)
qed

text \<open>
  The entry \<open>org.acme/en-us\<close> stays after a removal with \<open>en-US\<close>, while a lookup with
  \<open>en-US\<close> returns it.
\<close>

theorem removeVocabulary_keeps_entry_on_uppercase_locale_witness:
  "removeVocabulary store_en_us ''org.acme'' ''en-US'' = store_en_us
   \<and> getVocabulary store_en_us ''org.acme'' ''en-US'' None = Some v_en_us"
proof -
  have "bcp47_chars ''en-US''" "store_keyed store_en_us" "store_lowercase store_en_us"
    "\<exists>c\<in>set ''en-US''. isUpper c"
    by (simp_all add: bcp47_chars_def store_keyed_def store_lowercase_def store_en_us_def
        v_en_us_def getIdentifier_def getNamespace_def getLocale_def toLowerCase_eval)
  then have "removeVocabulary store_en_us ''org.acme'' ''en-US'' = store_en_us"
    using removeVocabulary_keeps_entry_on_uppercase_locale [of store_en_us "''org.acme''" "''en-US''"]
    by blast
  moreover have "getVocabulary store_en_us ''org.acme'' ''en-US'' None = Some v_en_us"
    by (simp add: getVocabulary_def getVocabulariesForNamespace_def obj_values_def
        store_en_us_def v_en_us_def getNamespace_def getLocale_def toLowerCase_eval
        findVocabulary.simps)
  ultimately show ?thesis by simp
qed

section \<open>Term lookup with generalisation of the locale\<close>

lemma getVocabulary_exact: "getVocabulary this namespace loc None = exact_entry this namespace loc"
  by (simp add: getVocabulary_def exact_entry_def findVocabulary_exact is_lookup_def)

lemma getTerm_unfold:
  "getTerm this namespace loc d p =
     (let term = (case exact_entry this namespace loc of
                    None \<Rightarrow> None
                  | Some voc \<Rightarrow> voc_getTerm voc d p)
      in if truthy term then term
         else if 0 \<le> lastIndexOf CHR ''-'' loc
           then getTerm this namespace (substring0 loc (lastIndexOf CHR ''-'' loc)) d p
           else None)"
  by (subst getTerm.simps) (simp add: getVocabulary_exact)

lemma miss_not_truthy:
  assumes "exact_entry this namespace loc = None
      \<or> (\<exists>voc. exact_entry this namespace loc = Some voc \<and> \<not> truthy (voc_getTerm voc d p))"
  shows "\<not> truthy (case exact_entry this namespace loc of
                    None \<Rightarrow> None
                  | Some voc \<Rightarrow> voc_getTerm voc d p)"
  using assms
proof
  assume "exact_entry this namespace loc = None"
  then show ?thesis by (simp add: truthy_def)
next
  assume "\<exists>voc. exact_entry this namespace loc = Some voc \<and> \<not> truthy (voc_getTerm voc d p)"
  then show ?thesis by auto
qed

lemma getTerm_found:
  assumes "exact_entry this namespace loc = Some voc" "voc_getTerm voc d p = Some t" "t \<noteq> []"
  shows "getTerm this namespace loc d p = Some t"
  using assms
  by (subst getTerm_unfold) (simp add: truthy_def)

lemma getTerm_miss_truncate:
  assumes miss: "exact_entry this namespace loc = None
      \<or> (\<exists>voc. exact_entry this namespace loc = Some voc \<and> \<not> truthy (voc_getTerm voc d p))"
    and loc: "loc = pre @ ''-'' @ suf" and suf: "CHR ''-'' \<notin> set suf"
  shows "getTerm this namespace loc d p = getTerm this namespace pre d p"
proof -
  have idx: "lastIndexOf CHR ''-'' loc = int (length pre)"
    using suf by (simp add: loc lastIndexOf_split)
  have cut: "substring0 loc (int (length pre)) = pre"
    by (simp add: loc substring0_def)
  show ?thesis
    by (subst getTerm_unfold) (simp add: miss_not_truthy [OF miss] Let_def idx cut)
qed

lemma getTerm_miss_exhausted:
  assumes "exact_entry this namespace loc = None
      \<or> (\<exists>voc. exact_entry this namespace loc = Some voc \<and> \<not> truthy (voc_getTerm voc d p))"
    and "CHR ''-'' \<notin> set loc"
  shows "getTerm this namespace loc d p = None"
proof -
  from assms(2) have "\<not> 0 \<le> lastIndexOf CHR ''-'' loc" by (simp add: lastIndexOf_present)
  then show ?thesis
    by (subst getTerm_unfold) (simp add: miss_not_truthy [OF assms(1)] Let_def)
qed

text \<open>
  Claim C2. \<open>getTerm\<close> calls \<open>getVocabulary\<close> with no options, which is the exact match on
  the lowercased locale. A term the matched entry gives is returned. If there is no entry
  at that locale, or the entry lacks the term (an empty term counts as lacking, being
  falsy), then a locale that splits at its last \<open>-\<close> into \<open>pre\<close> and \<open>suf\<close> gives the result
  for \<open>pre\<close>, and a locale with no \<open>-\<close> gives null. The result is always a term or null.
\<close>

theorem getTerm_generalizes_locale:
  "getVocabulary this namespace loc None
     = find (\<lambda>v. getLocale v = toLowerCase loc) (getVocabulariesForNamespace this namespace)
   \<and> (exact_entry this namespace loc = Some voc \<and> voc_getTerm voc d p = Some t \<and> t \<noteq> []
        \<longrightarrow> getTerm this namespace loc d p = Some t)
   \<and> ((exact_entry this namespace loc = None
         \<or> (\<exists>voc. exact_entry this namespace loc = Some voc \<and> \<not> truthy (voc_getTerm voc d p)))
        \<and> loc = pre @ ''-'' @ suf \<and> CHR ''-'' \<notin> set suf
        \<longrightarrow> getTerm this namespace loc d p = getTerm this namespace pre d p)
   \<and> ((exact_entry this namespace loc = None
         \<or> (\<exists>voc. exact_entry this namespace loc = Some voc \<and> \<not> truthy (voc_getTerm voc d p)))
        \<and> CHR ''-'' \<notin> set loc
        \<longrightarrow> getTerm this namespace loc d p = None)"
proof (intro conjI impI)
  show "getVocabulary this namespace loc None
     = find (\<lambda>v. getLocale v = toLowerCase loc) (getVocabulariesForNamespace this namespace)"
    using getVocabulary_exact [of this namespace loc] by (simp add: exact_entry_def)
next
  assume "exact_entry this namespace loc = Some voc \<and> voc_getTerm voc d p = Some t \<and> t \<noteq> []"
  then show "getTerm this namespace loc d p = Some t" by (simp add: getTerm_found)
next
  assume a: "(exact_entry this namespace loc = None
         \<or> (\<exists>voc. exact_entry this namespace loc = Some voc \<and> \<not> truthy (voc_getTerm voc d p)))
        \<and> loc = pre @ ''-'' @ suf \<and> CHR ''-'' \<notin> set suf"
  then show "getTerm this namespace loc d p = getTerm this namespace pre d p"
    using getTerm_miss_truncate [of this namespace loc d p pre suf] by blast
next
  assume "(exact_entry this namespace loc = None
         \<or> (\<exists>voc. exact_entry this namespace loc = Some voc \<and> \<not> truthy (voc_getTerm voc d p)))
        \<and> CHR ''-'' \<notin> set loc"
  then show "getTerm this namespace loc d p = None"
    using getTerm_miss_exhausted [of this namespace loc d p] by blast
qed

lemma exact_entry_store_en:
  "exact_entry store_en ''org.acme'' ''en-US'' = None"
  "exact_entry store_en ''org.acme'' ''en'' = Some v_en"
  "exact_entry store_en ''org.acme'' ''zh'' = None"
  by (simp_all add: exact_entry_def getVocabulariesForNamespace_def obj_values_def store_en_def
      v_en_def getNamespace_def getLocale_def toLowerCase_eval)

theorem getTerm_generalizes_locale_witness:
  "getTerm store_en ''org.acme'' ''en-US'' ''Vehicle'' None = Some ''Vehicle''
   \<and> getTerm store_en ''org.acme'' ''en'' ''Truck'' None = None
   \<and> getTerm store_en ''org.acme'' ''zh'' ''Vehicle'' None = None"
proof -
  have t: "voc_getTerm v_en ''Vehicle'' None = Some ''Vehicle''"
    "\<not> truthy (voc_getTerm v_en ''Truck'' None)"
    by (simp_all add: voc_getTerm_def v_en_def truthy_def)
  have "getTerm store_en ''org.acme'' ''en-US'' ''Vehicle'' None
      = getTerm store_en ''org.acme'' ''en'' ''Vehicle'' None"
    using getTerm_generalizes_locale
      [of store_en "''org.acme''" "''en-US''" v_en "''Vehicle''" None "''''" "''en''" "''US''"]
      exact_entry_store_en
    by simp
  also have "\<dots> = Some ''Vehicle''"
    using getTerm_generalizes_locale
      [of store_en "''org.acme''" "''en''" v_en "''Vehicle''" None "''Vehicle''" "''''" "''''"]
      exact_entry_store_en t
    by simp
  finally have a: "getTerm store_en ''org.acme'' ''en-US'' ''Vehicle'' None = Some ''Vehicle''" .
  have b: "getTerm store_en ''org.acme'' ''en'' ''Truck'' None = None"
    using getTerm_generalizes_locale
      [of store_en "''org.acme''" "''en''" v_en "''Truck''" None "''''" "''''" "''''"]
      exact_entry_store_en t
    by simp
  have c: "getTerm store_en ''org.acme'' ''zh'' ''Vehicle'' None = None"
    using getTerm_generalizes_locale
      [of store_en "''org.acme''" "''zh''" v_en "''Vehicle''" None "''''" "''''" "''''"]
      exact_entry_store_en
    by simp
  from a b c show ?thesis by simp
qed

section \<open>Termination of the term lookup\<close>

lemma dashes_truncate:
  assumes "0 \<le> lastIndexOf CHR ''-'' loc"
  shows "dashes (substring0 loc (lastIndexOf CHR ''-'' loc)) < dashes loc"
proof -
  from assms have "CHR ''-'' \<in> set loc" by (simp add: lastIndexOf_present)
  then obtain pre suf where loc: "loc = pre @ CHR ''-'' # suf" and suf: "CHR ''-'' \<notin> set suf"
    using split_list_last by fast
  from suf have "lastIndexOf CHR ''-'' loc = int (length pre)"
    unfolding loc by (rule lastIndexOf_split)
  then have "substring0 loc (lastIndexOf CHR ''-'' loc) = pre"
    by (simp add: loc substring0_def)
  then show ?thesis by (simp add: dashes_def loc)
qed

lemma getTerm_depth_enough:
  "subtags loc \<le> n \<Longrightarrow> getTerm_depth n this namespace loc d p = Some (getTerm this namespace loc d p)"
proof (induction n arbitrary: loc)
  case 0
  then show ?case by (simp add: subtags_def)
next
  case (Suc n)
  show ?case
  proof (cases "0 \<le> lastIndexOf CHR ''-'' loc")
    case True
    then have "dashes (substring0 loc (lastIndexOf CHR ''-'' loc)) < dashes loc"
      by (rule dashes_truncate)
    with Suc.prems have "subtags (substring0 loc (lastIndexOf CHR ''-'' loc)) \<le> n"
      by (simp add: subtags_def)
    then have "getTerm_depth n this namespace (substring0 loc (lastIndexOf CHR ''-'' loc)) d p
        = Some (getTerm this namespace (substring0 loc (lastIndexOf CHR ''-'' loc)) d p)"
      by (rule Suc.IH)
    with True show ?thesis
      by (subst getTerm.simps) (simp add: Let_def)
  next
    case False
    then show ?thesis
      by (subst getTerm.simps) (simp add: Let_def)
  qed
qed

text \<open>
  Claim C7. Each recursive call of \<open>getTerm\<close> is on a locale with strictly fewer \<open>-\<close>
  separators, and a recursion depth of the number of subtags of the locale is enough
  for the method to return its value.
\<close>

theorem getTerm_terminates:
  "(0 \<le> lastIndexOf CHR ''-'' loc \<longrightarrow>
      dashes (substring0 loc (lastIndexOf CHR ''-'' loc)) < dashes loc)
   \<and> (subtags loc \<le> n \<longrightarrow>
        getTerm_depth n this namespace loc d p = Some (getTerm this namespace loc d p))"
  using dashes_truncate [of loc] getTerm_depth_enough [of loc n this namespace d p] by blast

theorem getTerm_terminates_witness:
  "dashes (substring0 ''en-US-x'' (lastIndexOf CHR ''-'' ''en-US-x'')) < dashes ''en-US-x''
   \<and> subtags ''en-US-x'' = 3
   \<and> getTerm_depth 3 store_en ''org.acme'' ''en-US-x'' ''Vehicle'' None
       = Some (getTerm store_en ''org.acme'' ''en-US-x'' ''Vehicle'' None)
   \<and> getTerm_depth 2 store_en ''org.acme'' ''zh-Hant-TW'' ''Vehicle'' None = None"
proof -
  have h1: "0 \<le> lastIndexOf CHR ''-'' ''en-US-x''" by simp
  have h2: "subtags ''en-US-x'' \<le> 3" "subtags ''en-US-x'' = 3" by (simp_all add: subtags_def dashes_def)
  have a: "dashes (substring0 ''en-US-x'' (lastIndexOf CHR ''-'' ''en-US-x'')) < dashes ''en-US-x''"
    using getTerm_terminates [of "''en-US-x''"] h1 by blast
  have b: "getTerm_depth 3 store_en ''org.acme'' ''en-US-x'' ''Vehicle'' None
       = Some (getTerm store_en ''org.acme'' ''en-US-x'' ''Vehicle'' None)"
    using getTerm_terminates [of "''en-US-x''" 3 store_en "''org.acme''" "''Vehicle''" None] h2 by blast
  have c: "getTerm_depth 2 store_en ''org.acme'' ''zh-Hant-TW'' ''Vehicle'' None = None"
    by (simp add: numeral_2_eq_2 getVocabulary_exact exact_entry_def getVocabulariesForNamespace_def
        obj_values_def store_en_def v_en_def getNamespace_def getLocale_def toLowerCase_eval
        truthy_def substring0_def)
  from a b c h2 show ?thesis by simp
qed

section \<open>Adding an entry\<close>

lemma obj_values_simps:
  "obj_values [] = []" "obj_values ((k, v) # ps) = v # obj_values ps"
  by (simp_all add: obj_values_def)

lemma obj_get_set: "obj_get (obj_set k v ps) k' = (if k' = k then Some v else obj_get ps k')"
  by (induction ps) (auto simp: obj_get_def)

lemma obj_set_fresh: "k \<notin> fst ` set ps \<Longrightarrow> obj_set k v ps = ps @ [(k, v)]"
  by (induction ps) auto

lemma obj_values_set_mem: "v \<in> set (obj_values (obj_set k v ps))"
  by (induction k v ps rule: obj_set.induct) (simp_all add: obj_values_simps)

lemma obj_values_set_subset: "set (obj_values (obj_set k v ps)) \<subseteq> insert v (set (obj_values ps))"
  by (induction k v ps rule: obj_set.induct) (auto simp: obj_values_simps)

lemma distinct_ids_obj_set:
  assumes "distinct (map f (obj_values ps))" "f v \<notin> f ` set (obj_values ps)"
  shows "distinct (map f (obj_values (obj_set k v ps)))"
  using assms
proof (induction k v ps rule: obj_set.induct)
  case (1 k v)
  then show ?case by (simp add: obj_values_simps)
next
  case (2 k v k' v' ps)
  show ?case
  proof (cases "k' = k")
    case True
    with "2.prems" show ?thesis by (simp add: obj_values_simps)
  next
    case False
    from "2.prems" have d: "distinct (map f (obj_values ps))"
      and n: "f v \<notin> f ` set (obj_values ps)"
      and v': "f v' \<notin> f ` set (obj_values ps)" and ne: "f v \<noteq> f v'"
      by (auto simp: obj_values_simps)
    from False d n have "distinct (map f (obj_values (obj_set k v ps)))" by (rule "2.IH")
    moreover have "f v' \<notin> f ` set (obj_values (obj_set k v ps))"
      using obj_values_set_subset [of k v ps] v' ne by auto
    ultimately show ?thesis using False by (simp add: obj_values_simps)
  qed
qed

lemma addVocabulary_invalid:
  "contents = None \<or> contents = Some [] \<Longrightarrow>
     addVocabulary parse this contents = (Inl InvalidArgument, this)"
  by (auto simp: addVocabulary_def)

lemma addVocabulary_duplicate:
  assumes "text \<noteq> []" "parse text = Inr voc"
    "\<exists>v\<in>set (obj_values (vocabularies this)). getIdentifier v = getIdentifier voc"
  shows "addVocabulary parse this (Some text) = (Inl DuplicateEntry, this)"
proof -
  from assms(3) have "find (\<lambda>v. getIdentifier v = getIdentifier voc) (obj_values (vocabularies this)) \<noteq> None"
    by (auto simp: find_None_iff)
  with assms(1,2) show ?thesis by (auto simp: addVocabulary_def)
qed

lemma addVocabulary_fresh:
  assumes "text \<noteq> []" "parse text = Inr voc"
    "\<forall>v\<in>set (obj_values (vocabularies this)). getIdentifier v \<noteq> getIdentifier voc"
  shows "addVocabulary parse this (Some text)
    = (Inr (), this\<lparr>vocabularies := obj_set (getIdentifier voc) voc (vocabularies this)\<rparr>)"
proof -
  from assms(3) have "find (\<lambda>v. getIdentifier v = getIdentifier voc) (obj_values (vocabularies this)) = None"
    by (simp add: find_None_iff)
  with assms(1,2) show ?thesis by (simp add: addVocabulary_def)
qed

lemma addVocabulary_success:
  assumes "addVocabulary parse this contents = (Inr (), this')"
  shows "\<exists>text voc. contents = Some text \<and> text \<noteq> [] \<and> parse text = Inr voc
      \<and> (\<forall>v\<in>set (obj_values (vocabularies this)). getIdentifier v \<noteq> getIdentifier voc)
      \<and> this' = this\<lparr>vocabularies := obj_set (getIdentifier voc) voc (vocabularies this)\<rparr>"
  using assms
  by (auto simp: addVocabulary_def find_None_iff split: option.splits if_splits sum.splits)

text \<open>
  Claim C3. \<open>addVocabulary\<close> fails with \<open>InvalidArgument\<close> when the contents are absent or
  empty, and with \<open>DuplicateEntry\<close> when an entry with the identifier of the parsed entry is
  registered already; in both cases the store is as before. Otherwise the parsed entry
  is registered under its identifier, and every other key keeps its value.
\<close>

theorem addVocabulary_outcomes:
  "(contents = None \<or> contents = Some [] \<longrightarrow>
      addVocabulary parse this contents = (Inl InvalidArgument, this))
   \<and> (text \<noteq> [] \<and> parse text = Inr voc
        \<and> (\<exists>v\<in>set (obj_values (vocabularies this)). getIdentifier v = getIdentifier voc) \<longrightarrow>
          addVocabulary parse this (Some text) = (Inl DuplicateEntry, this))
   \<and> (text \<noteq> [] \<and> parse text = Inr voc
        \<and> (\<forall>v\<in>set (obj_values (vocabularies this)). getIdentifier v \<noteq> getIdentifier voc) \<longrightarrow>
          fst (addVocabulary parse this (Some text)) = Inr ()
          \<and> obj_get (vocabularies (snd (addVocabulary parse this (Some text)))) (getIdentifier voc)
              = Some voc
          \<and> (\<forall>k. k \<noteq> getIdentifier voc \<longrightarrow>
                obj_get (vocabularies (snd (addVocabulary parse this (Some text)))) k
                  = obj_get (vocabularies this) k))"
  using addVocabulary_invalid [of contents parse this]
    addVocabulary_duplicate [of "text" parse voc this]
    addVocabulary_fresh [of "text" parse voc this]
  by (auto simp: obj_get_set)

lemma example_facts:
  "doc_en \<noteq> []" "doc_fr \<noteq> []" "doc_en_us \<noteq> []"
  "parse_example doc_en = Inr v_en" "parse_example doc_fr = Inr v_fr"
  "parse_example doc_en_us = Inr v_en_us"
  "getIdentifier v_en = ''org.acme/en''" "getIdentifier v_fr = ''org.acme/fr''"
  "getIdentifier v_en_us = ''org.acme/en-us''"
  by (simp_all add: parse_example_def doc_en_def doc_fr_def doc_en_us_def v_en_def v_fr_def
      v_en_us_def getIdentifier_def getNamespace_def getLocale_def)

theorem addVocabulary_outcomes_witness:
  "addVocabulary parse_example store_en None = (Inl InvalidArgument, store_en)
   \<and> addVocabulary parse_example store_en (Some '''') = (Inl InvalidArgument, store_en)
   \<and> addVocabulary parse_example store_en (Some doc_en) = (Inl DuplicateEntry, store_en)
   \<and> fst (addVocabulary parse_example store_en (Some doc_fr)) = Inr ()
   \<and> obj_get (vocabularies (snd (addVocabulary parse_example store_en (Some doc_fr))))
        ''org.acme/fr'' = Some v_fr
   \<and> obj_get (vocabularies (snd (addVocabulary parse_example store_en (Some doc_fr))))
        ''org.acme/en'' = Some v_en"
proof -
  have vals: "obj_values (vocabularies store_en) = [v_en]"
    by (simp add: store_en_def obj_values_def)
  have dup: "\<exists>v\<in>set (obj_values (vocabularies store_en)). getIdentifier v = getIdentifier v_en"
    by (simp add: vals)
  have fresh: "\<forall>v\<in>set (obj_values (vocabularies store_en)). getIdentifier v \<noteq> getIdentifier v_fr"
    by (simp add: vals example_facts)
  have old: "obj_get (vocabularies store_en) ''org.acme/en'' = Some v_en"
    by (simp add: store_en_def obj_get_def)
  have a: "addVocabulary parse_example store_en None = (Inl InvalidArgument, store_en)"
    using addVocabulary_outcomes [of None parse_example store_en] by simp
  have b: "addVocabulary parse_example store_en (Some '''') = (Inl InvalidArgument, store_en)"
    using addVocabulary_outcomes [of "Some ''''" parse_example store_en] by simp
  have c: "addVocabulary parse_example store_en (Some doc_en) = (Inl DuplicateEntry, store_en)"
    using addVocabulary_outcomes [of None parse_example store_en doc_en v_en] dup example_facts
    by blast
  have d: "fst (addVocabulary parse_example store_en (Some doc_fr)) = Inr ()
      \<and> obj_get (vocabularies (snd (addVocabulary parse_example store_en (Some doc_fr))))
          (getIdentifier v_fr) = Some v_fr
      \<and> (\<forall>k. k \<noteq> getIdentifier v_fr \<longrightarrow>
            obj_get (vocabularies (snd (addVocabulary parse_example store_en (Some doc_fr)))) k
              = obj_get (vocabularies store_en) k)"
    using addVocabulary_outcomes [of None parse_example store_en doc_fr v_fr] fresh example_facts
    by blast
  from d have e: "obj_get (vocabularies (snd (addVocabulary parse_example store_en (Some doc_fr))))
        ''org.acme/en'' = Some v_en"
    using old by (simp add: example_facts)
  from a b c d e show ?thesis by (simp add: example_facts)
qed

section \<open>The invariant of the store\<close>

lemma store_inv_add:
  assumes "store_inv this"
  shows "store_inv (snd (addVocabulary parse this contents))"
proof (cases "fst (addVocabulary parse this contents)")
  case (Inl e)
  then have "snd (addVocabulary parse this contents) = this"
    by (auto simp: addVocabulary_def split: option.splits if_splits sum.splits)
  with assms show ?thesis by simp
next
  case (Inr u)
  then have "addVocabulary parse this contents = (Inr (), snd (addVocabulary parse this contents))"
    by (cases "addVocabulary parse this contents") simp
  then obtain voc where
    fresh: "\<forall>v\<in>set (obj_values (vocabularies this)). getIdentifier v \<noteq> getIdentifier voc"
    and this': "snd (addVocabulary parse this contents)
      = this\<lparr>vocabularies := obj_set (getIdentifier voc) voc (vocabularies this)\<rparr>"
    using addVocabulary_success by blast
  from fresh have "getIdentifier voc \<notin> getIdentifier ` set (obj_values (vocabularies this))"
    by auto
  with assms show ?thesis
    unfolding this' store_inv_def by (simp add: distinct_ids_obj_set)
qed

lemma store_inv_remove: "store_inv this \<Longrightarrow> store_inv (removeVocabulary this namespace loc)"
  by (simp add: store_inv_def removeVocabulary_def obj_delete_def obj_values_def
      distinct_map_filter)

lemma store_keyed_keys:
  "store_keyed this \<Longrightarrow> fst ` set (vocabularies this) = getIdentifier ` set (obj_values (vocabularies this))"
  by (force simp: store_keyed_def list_all_iff obj_values_def)

lemma store_keyed_preserved:
  "store_keyed new_VocabularyManager"
  "store_keyed (clear this)"
  "store_keyed this \<Longrightarrow> store_keyed (removeVocabulary this namespace loc)"
  "store_keyed this \<Longrightarrow> store_keyed (snd (addVocabulary parse this contents))"
proof -
  show "store_keyed new_VocabularyManager" "store_keyed (clear this)"
    by (simp_all add: store_keyed_def new_VocabularyManager_def clear_def)
  show "store_keyed this \<Longrightarrow> store_keyed (removeVocabulary this namespace loc)"
    by (simp add: store_keyed_def removeVocabulary_def obj_delete_def list_all_iff)
  have set_obj_set: "set (obj_set k v ps) \<subseteq> insert (k, v) (set ps)" for k and v :: Vocabulary and ps
    by (induction k v ps rule: obj_set.induct) auto
  show "store_keyed (snd (addVocabulary parse this contents))" if "store_keyed this"
    using that set_obj_set
    by (fastforce simp: addVocabulary_def store_keyed_def list_all_iff
        split: option.splits sum.splits)
qed

text \<open>
  Claim C5. A new store has at most one entry per identifier, and \<open>clear\<close>,
  \<open>removeVocabulary\<close> and \<open>addVocabulary\<close> (failing or not) keep it so. A successful
  \<open>addVocabulary\<close> on a store keyed by identifiers found no entry with the new identifier
  and appends the new entry, leaving every existing entry in place.
\<close>

theorem store_invariant_preserved:
  "store_inv new_VocabularyManager
   \<and> store_inv (clear this)
   \<and> (store_inv this \<longrightarrow> store_inv (removeVocabulary this namespace loc))
   \<and> (store_inv this \<longrightarrow> store_inv (snd (addVocabulary parse this contents)))
   \<and> (store_keyed this \<and> addVocabulary parse this contents = (Inr (), this') \<longrightarrow>
        (\<exists>txt voc. contents = Some txt \<and> parse txt = Inr voc
           \<and> getIdentifier voc \<notin> getIdentifier ` set (obj_values (vocabularies this))
           \<and> vocabularies this' = vocabularies this @ [(getIdentifier voc, voc)]))"
proof (intro conjI impI)
  show "store_inv new_VocabularyManager" "store_inv (clear this)"
    by (simp_all add: store_inv_def new_VocabularyManager_def clear_def obj_values_def)
  show "store_inv (removeVocabulary this namespace loc)" if "store_inv this"
    using that by (rule store_inv_remove)
  show "store_inv (snd (addVocabulary parse this contents))" if "store_inv this"
    using that by (rule store_inv_add)
next
  assume a: "store_keyed this \<and> addVocabulary parse this contents = (Inr (), this')"
  then obtain doc voc where c: "contents = Some doc" and p: "parse doc = Inr voc"
    and fresh: "\<forall>v\<in>set (obj_values (vocabularies this)). getIdentifier v \<noteq> getIdentifier voc"
    and this': "this' = this\<lparr>vocabularies := obj_set (getIdentifier voc) voc (vocabularies this)\<rparr>"
    using addVocabulary_success [of parse this contents this'] by blast
  from fresh have nid: "getIdentifier voc \<notin> getIdentifier ` set (obj_values (vocabularies this))"
    by auto
  with a have "getIdentifier voc \<notin> fst ` set (vocabularies this)"
    by (simp add: store_keyed_keys)
  then have "vocabularies this' = vocabularies this @ [(getIdentifier voc, voc)]"
    by (simp add: this' obj_set_fresh)
  with c p nid
  show "\<exists>txt voc. contents = Some txt \<and> parse txt = Inr voc
           \<and> getIdentifier voc \<notin> getIdentifier ` set (obj_values (vocabularies this))
           \<and> vocabularies this' = vocabularies this @ [(getIdentifier voc, voc)]"
    by blast
qed

theorem store_invariant_preserved_witness:
  "store_inv store_en
   \<and> store_inv (removeVocabulary store_en ''org.acme'' ''en'')
   \<and> store_inv (snd (addVocabulary parse_example store_en (Some doc_en)))
   \<and> store_inv (snd (addVocabulary parse_example store_en (Some doc_fr)))
   \<and> addVocabulary parse_example store_en (Some doc_fr) = (Inr (), store_en_fr)
   \<and> getIdentifier v_fr \<notin> getIdentifier ` set (obj_values (vocabularies store_en))
   \<and> vocabularies store_en_fr = vocabularies store_en @ [(getIdentifier v_fr, v_fr)]"
proof -
  have inv: "store_inv store_en" and keyed: "store_keyed store_en"
    by (simp_all add: store_inv_def store_keyed_def store_en_def obj_values_def example_facts)
  have add: "addVocabulary parse_example store_en (Some doc_fr) = (Inr (), store_en_fr)"
    by (simp add: addVocabulary_def example_facts store_en_def store_en_fr_def obj_values_def)
  note inst = store_invariant_preserved
    [of store_en "''org.acme''" "''en''" parse_example _ store_en_fr]
  have a: "store_inv (removeVocabulary store_en ''org.acme'' ''en'')"
    using inst inv by blast
  have b: "store_inv (snd (addVocabulary parse_example store_en (Some doc_en)))"
    using inst [of "Some doc_en"] inv by blast
  have c: "store_inv (snd (addVocabulary parse_example store_en (Some doc_fr)))"
    using inst [of "Some doc_fr"] inv by blast
  have "\<exists>txt voc. Some doc_fr = Some txt \<and> parse_example txt = Inr voc
           \<and> getIdentifier voc \<notin> getIdentifier ` set (obj_values (vocabularies store_en))
           \<and> vocabularies store_en_fr = vocabularies store_en @ [(getIdentifier voc, voc)]"
    using inst [of "Some doc_fr"] keyed add by blast
  then have d: "getIdentifier v_fr \<notin> getIdentifier ` set (obj_values (vocabularies store_en))
      \<and> vocabularies store_en_fr = vocabularies store_en @ [(getIdentifier v_fr, v_fr)]"
    by (auto simp: example_facts)
  from inv a b c add d show ?thesis by simp
qed

text \<open>Every state of a store has at most one entry per identifier, keyed by it.\<close>

lemma reachable_store_inv: "reachable this \<Longrightarrow> store_inv this \<and> store_keyed this"
proof (induction rule: reachable.induct)
  case reachable_new
  show ?case
    by (simp add: store_inv_def store_keyed_def new_VocabularyManager_def obj_values_def)
next
  case (reachable_clear this)
  show ?case by (simp add: store_inv_def store_keyed_def clear_def obj_values_def)
next
  case (reachable_remove this namespace loc)
  then show ?case by (simp add: store_inv_remove store_keyed_preserved)
next
  case (reachable_add this parse contents)
  then show ?case by (simp add: store_inv_add store_keyed_preserved)
qed

section \<open>Adding, then looking up\<close>

lemma find_hit_property:
  assumes "x \<in> set xs" "P x"
  shows "\<exists>y. find P xs = Some y \<and> y \<in> set xs \<and> P y"
proof (cases "find P xs")
  case None
  with assms show ?thesis by (auto simp: find_None_iff)
next
  case (Some y)
  then show ?thesis by (auto simp: find_Some_iff)
qed

text \<open>
  Claim C6. After a successful \<open>addVocabulary\<close> of a document whose entry has namespace
  \<open>namespace\<close> and, as the spec's data model has it, the document's locale in lowercase,
  \<open>getVocabulary(namespace, locale)\<close> returns an entry whose identifier is
  \<open>namespace/locale\<close> with the locale in lowercase, whatever the options.
\<close>

theorem addVocabulary_getVocabulary_roundtrip:
  "addVocabulary parse this (Some txt) = (Inr (), this') \<and> parse txt = Inr voc
     \<and> getNamespace voc = namespace \<and> getLocale voc = toLowerCase loc \<longrightarrow>
   (\<exists>w. getVocabulary this' namespace loc opts = Some w
      \<and> getIdentifier w = namespace @ ''/'' @ toLowerCase loc)"
proof
  assume a: "addVocabulary parse this (Some txt) = (Inr (), this') \<and> parse txt = Inr voc
     \<and> getNamespace voc = namespace \<and> getLocale voc = toLowerCase loc"
  then have "this' = this\<lparr>vocabularies := obj_set (getIdentifier voc) voc (vocabularies this)\<rparr>"
    using addVocabulary_success [of parse this "Some txt" this'] by auto
  then have "voc \<in> set (obj_values (vocabularies this'))"
    by (simp add: obj_values_set_mem)
  with a have "voc \<in> set (getVocabulariesForNamespace this' namespace)"
    by (simp add: getVocabulariesForNamespace_def)
  with a obtain w where
    f: "find (\<lambda>v. getLocale v = toLowerCase loc) (getVocabulariesForNamespace this' namespace) = Some w"
    and w: "w \<in> set (getVocabulariesForNamespace this' namespace)" "getLocale w = toLowerCase loc"
    using find_hit_property
      [of voc "getVocabulariesForNamespace this' namespace" "\<lambda>v. getLocale v = toLowerCase loc"]
    by blast
  from f have "getVocabulary this' namespace loc opts = Some w"
    by (simp add: getVocabulary_def findVocabulary_hit)
  moreover from w have "getIdentifier w = namespace @ ''/'' @ toLowerCase loc"
    by (simp add: getVocabulariesForNamespace_def getIdentifier_def)
  ultimately show "\<exists>w. getVocabulary this' namespace loc opts = Some w
      \<and> getIdentifier w = namespace @ ''/'' @ toLowerCase loc"
    by blast
qed

theorem addVocabulary_getVocabulary_roundtrip_witness:
  "addVocabulary parse_example store_en (Some doc_en_us)
     = (Inr (), \<lparr>vocabularies = [(''org.acme/en'', v_en), (''org.acme/en-us'', v_en_us)]\<rparr>)
   \<and> getVocabulary \<lparr>vocabularies = [(''org.acme/en'', v_en), (''org.acme/en-us'', v_en_us)]\<rparr>
        ''org.acme'' ''en-US'' None = Some v_en_us
   \<and> getIdentifier v_en_us = ''org.acme/en-us''"
proof -
  let ?st = "\<lparr>vocabularies = [(''org.acme/en'', v_en), (''org.acme/en-us'', v_en_us)]\<rparr>"
  have add: "addVocabulary parse_example store_en (Some doc_en_us) = (Inr (), ?st)"
    by (simp add: addVocabulary_def example_facts store_en_def obj_values_def)
  have ns: "getNamespace v_en_us = ''org.acme''" and lc: "getLocale v_en_us = toLowerCase ''en-US''"
    by (simp_all add: v_en_us_def getNamespace_def getLocale_def toLowerCase_eval)
  have "\<exists>w. getVocabulary ?st ''org.acme'' ''en-US'' None = Some w
      \<and> getIdentifier w = ''org.acme'' @ ''/'' @ toLowerCase ''en-US''"
    using addVocabulary_getVocabulary_roundtrip
      [of parse_example store_en doc_en_us ?st v_en_us "''org.acme''" "''en-US''" None]
      add ns lc example_facts
    by blast
  moreover have "getVocabulary ?st ''org.acme'' ''en-US'' None = Some v_en_us"
    by (simp add: getVocabulary_exact exact_entry_def getVocabulariesForNamespace_def
        obj_values_def v_en_def v_en_us_def getNamespace_def getLocale_def toLowerCase_eval)
  ultimately show ?thesis using add by (simp add: example_facts)
qed

section \<open>Validation against a model manager\<close>

lemma validate_voc_skip:
  "getModelFile mm (getNamespace v) = None \<Longrightarrow> validate_voc vv mm v acc = acc"
  by (simp add: validate_voc_def)

lemma validate_voc_record:
  "getModelFile mm (getNamespace v) = Some model \<Longrightarrow>
     validate_voc vv mm v acc = obj_set (getIdentifier v) (entry_record vv mm v) acc"
  by (simp add: validate_voc_def entry_record_def getIdentifier_def Let_def split: option.splits)

lemma fold_validate_voc:
  assumes "distinct (map getIdentifier vs)"
    and "\<forall>v\<in>set vs. getIdentifier v \<notin> fst ` set acc"
  shows "fold (validate_voc vv mm) vs acc
    = acc @ map (\<lambda>v. (getIdentifier v, entry_record vv mm v))
              (filter (\<lambda>v. getModelFile mm (getNamespace v) \<noteq> None) vs)"
  using assms
proof (induction vs arbitrary: acc)
  case Nil
  show ?case by simp
next
  case (Cons v vs)
  show ?case
  proof (cases "getModelFile mm (getNamespace v)")
    case None
    with Cons show ?thesis by (simp add: validate_voc_skip)
  next
    case (Some model)
    from Cons.prems have fresh: "getIdentifier v \<notin> fst ` set acc" by simp
    let ?acc = "acc @ [(getIdentifier v, entry_record vv mm v)]"
    have step: "validate_voc vv mm v acc = ?acc"
      using Some fresh by (simp add: validate_voc_record obj_set_fresh)
    from Cons.prems have d: "distinct (map getIdentifier vs)"
      and nv: "getIdentifier v \<notin> getIdentifier ` set vs"
      and nacc: "\<forall>w\<in>set vs. getIdentifier w \<notin> fst ` set acc"
      by simp_all
    have "getIdentifier w \<notin> fst ` set ?acc" if "w \<in> set vs" for w
    proof -
      from that nv have "getIdentifier w \<noteq> getIdentifier v" by (metis imageI)
      with that nacc show ?thesis by simp
    qed
    then have "\<forall>w\<in>set vs. getIdentifier w \<notin> fst ` set ?acc" by blast
    with d have "fold (validate_voc vv mm) vs ?acc
      = ?acc @ map (\<lambda>v. (getIdentifier v, entry_record vv mm v))
              (filter (\<lambda>v. getModelFile mm (getNamespace v) \<noteq> None) vs)"
      by (rule Cons.IH)
    with Some step show ?thesis by simp
  qed
qed

lemma missing_namespaces:
  "map the (filter (\<lambda>m. m \<noteq> None)
      (map (\<lambda>m. if length (g (f m)) = 0 then Some (f m) else None) ms))
   = map f (filter (\<lambda>m. g (f m) = []) ms)"
  by (induction ms) auto

lemma no_record_without_model:
  assumes d: "distinct (map getIdentifier vs)" and v: "v \<in> set vs"
    and none: "getModelFile mm (getNamespace v) = None"
  shows "obj_get (map (\<lambda>v. (getIdentifier v, entry_record vv mm v))
              (filter (\<lambda>v. getModelFile mm (getNamespace v) \<noteq> None) vs)) (getIdentifier v) = None"
proof -
  have "getIdentifier w \<noteq> getIdentifier v"
    if "w \<in> set vs" "getModelFile mm (getNamespace w) \<noteq> None" for w
  proof
    assume "getIdentifier w = getIdentifier v"
    with d v that(1) have "w = v" by (meson distinct_map inj_onD)
    with that(2) none show False by simp
  qed
  then show ?thesis
    by (force simp: obj_get_def map_of_eq_None_iff)
qed

text \<open>
  Claim C4. \<open>validate\<close> has no failing branch and returns a result in which
  \<open>missingVocabularies\<close> lists the namespaces of the provider's model files that have no
  vocabulary entry, \<open>additionalVocabularies\<close> lists the registered entries whose namespace
  has no model file, and, the store holding at most one entry per identifier (as every
  state of a store does, \<open>reachable_store_inv\<close>), \<open>vocabularies\<close> holds one record per
  registered entry whose namespace has a model file, keyed \<open>namespace/locale\<close>, and no
  record for an entry whose namespace has none.
\<close>

theorem validate_result:
  "missingVocabularies (validate model_namespace vv this mm)
     = map model_namespace
         (filter (\<lambda>m. getVocabulariesForNamespace this (model_namespace m) = [])
            (getModelFiles mm))
   \<and> additionalVocabularies (validate model_namespace vv this mm)
       = filter (\<lambda>v. getModelFile mm (getNamespace v) = None) (obj_values (vocabularies this))
   \<and> (store_inv this \<longrightarrow>
        result_vocabularies (validate model_namespace vv this mm)
          = map (\<lambda>v. (getNamespace v @ ''/'' @ getLocale v, entry_record vv mm v))
              (filter (\<lambda>v. getModelFile mm (getNamespace v) \<noteq> None)
                 (obj_values (vocabularies this)))
        \<and> (\<forall>v\<in>set (obj_values (vocabularies this)).
              getModelFile mm (getNamespace v) = None \<longrightarrow>
                obj_get (result_vocabularies (validate model_namespace vv this mm))
                  (getNamespace v @ ''/'' @ getLocale v) = None))"
proof (intro conjI impI ballI)
  show "missingVocabularies (validate model_namespace vv this mm)
     = map model_namespace
         (filter (\<lambda>m. getVocabulariesForNamespace this (model_namespace m) = [])
            (getModelFiles mm))"
    using missing_namespaces
      [of "getVocabulariesForNamespace this" model_namespace "getModelFiles mm"]
    by (simp only: validate_def validation_result.select_convs)
  show "additionalVocabularies (validate model_namespace vv this mm)
       = filter (\<lambda>v. getModelFile mm (getNamespace v) = None) (obj_values (vocabularies this))"
    by (simp add: validate_def)
next
  assume inv: "store_inv this"
  then have res: "result_vocabularies (validate model_namespace vv this mm)
      = map (\<lambda>v. (getIdentifier v, entry_record vv mm v))
          (filter (\<lambda>v. getModelFile mm (getNamespace v) \<noteq> None) (obj_values (vocabularies this)))"
    using fold_validate_voc [of "obj_values (vocabularies this)" "[]" vv mm]
    by (simp add: validate_def store_inv_def)
  then show "result_vocabularies (validate model_namespace vv this mm)
          = map (\<lambda>v. (getNamespace v @ ''/'' @ getLocale v, entry_record vv mm v))
              (filter (\<lambda>v. getModelFile mm (getNamespace v) \<noteq> None)
                 (obj_values (vocabularies this)))"
    by (simp add: getIdentifier_def)
  fix v
  assume "v \<in> set (obj_values (vocabularies this))" "getModelFile mm (getNamespace v) = None"
  with inv have "obj_get (result_vocabularies (validate model_namespace vv this mm))
      (getIdentifier v) = None"
    unfolding res store_inv_def by (intro no_record_without_model)
  then show "obj_get (result_vocabularies (validate model_namespace vv this mm))
                  (getNamespace v @ ''/'' @ getLocale v) = None"
    by (simp add: getIdentifier_def)
qed

lemma validate_example_facts:
  "obj_values (vocabularies store_three) = [v_en, v_other, v_fr]"
  "getNamespace v_en = ''org.acme''" "getNamespace v_fr = ''org.acme''"
  "getNamespace v_other = ''com.other''"
  "getLocale v_en = ''en''" "getLocale v_fr = ''fr''" "getLocale v_other = ''en''"
  "getModelFile models_example ''org.acme'' = Some ''org.acme''"
  "getModelFile models_example ''com.other'' = None"
  "getModelFiles models_example = [''org.acme'', ''org.missing'']"
  by (simp_all add: store_three_def obj_values_def v_en_def v_fr_def v_other_def
      getNamespace_def getLocale_def models_example_def)

theorem validate_result_witness:
  "missingVocabularies (validate (\<lambda>m. m) voc_validate_example store_three models_example)
     = [''org.missing'']
   \<and> additionalVocabularies (validate (\<lambda>m. m) voc_validate_example store_three models_example)
       = [v_other]
   \<and> result_vocabularies (validate (\<lambda>m. m) voc_validate_example store_three models_example)
       = [(''org.acme/en'',
           \<lparr>res_locale = ''en'', res_namespace = ''org.acme'',
              res_missingTerms = [''Truck''], res_additionalTerms = []\<rparr>),
          (''org.acme/fr'',
           \<lparr>res_locale = ''fr'', res_namespace = ''org.acme'',
              res_missingTerms = [], res_additionalTerms = [''Vehicle.colour'']\<rparr>)]
   \<and> obj_get (result_vocabularies
          (validate (\<lambda>m. m) voc_validate_example store_three models_example))
        ''com.other/en'' = None"
proof -
  let ?r = "validate (\<lambda>m. m) voc_validate_example store_three models_example"
  note inst = validate_result [of "\<lambda>m. m" voc_validate_example store_three models_example]
  have inv: "store_inv store_three"
    by (simp add: store_inv_def validate_example_facts getIdentifier_def)
  have a: "missingVocabularies ?r = [''org.missing'']"
    using inst
    by (simp add: validate_example_facts getVocabulariesForNamespace_def)
  have b: "additionalVocabularies ?r = [v_other]"
    using inst by (simp add: validate_example_facts)
  have c: "result_vocabularies ?r
      = map (\<lambda>v. (getNamespace v @ ''/'' @ getLocale v,
                  entry_record voc_validate_example models_example v))
          (filter (\<lambda>v. getModelFile models_example (getNamespace v) \<noteq> None)
             (obj_values (vocabularies store_three)))"
    using inst inv by blast
  have c': "result_vocabularies ?r
       = [(''org.acme/en'',
           \<lparr>res_locale = ''en'', res_namespace = ''org.acme'',
              res_missingTerms = [''Truck''], res_additionalTerms = []\<rparr>),
          (''org.acme/fr'',
           \<lparr>res_locale = ''fr'', res_namespace = ''org.acme'',
              res_missingTerms = [], res_additionalTerms = [''Vehicle.colour'']\<rparr>)]"
    unfolding c
    by (simp add: validate_example_facts entry_record_def voc_validate_example_def)
  have "v_other \<in> set (obj_values (vocabularies store_three))"
    by (simp add: validate_example_facts)
  then have "obj_get (result_vocabularies ?r) (getNamespace v_other @ ''/'' @ getLocale v_other) = None"
    using inst inv validate_example_facts(4,9) by (metis (no_types, lifting))
  then have d: "obj_get (result_vocabularies ?r) ''com.other/en'' = None"
    by (simp add: validate_example_facts)
  from a b c' d show ?thesis by simp
qed

end
